theory Spec2Isabelle
  imports Main "HOL-Library.Sublist" "HOL-Library.Char_ord" "HOL-Library.List_Lexorder"
begin

section \<open>Data model of pkg/cosign/verify.go\<close>

text \<open>
  Go strings and byte slices are byte sequences: both are \<open>string\<close> here. A Go
  \<open>error\<close> is used by the code only through its \<open>Error()\<close> text, so an error value
  is its message; a function returning \<open>(x, error)\<close> with \<open>(nil, err)\<close> or
  \<open>(x, nil)\<close> returns \<open>string + 'a\<close>, a function returning only \<open>error\<close> returns
  \<open>string option\<close> (\<open>None\<close> is \<open>nil\<close>).
\<close>

type_synonym bytes = string

text \<open>
  A Go \<open>map[string]string\<close> is an association list read through \<open>map_of\<close>; the nil
  map and the empty map are both \<open>[]\<close> (the code only reads and prints maps, and the two
  read and print alike).
\<close>

type_synonym gomap = "(string \<times> string) list"

text \<open>\<open>m[k]\<close>: the value stored under \<open>k\<close>, the empty string when \<open>k\<close> is absent.\<close>

definition go_index :: "gomap \<Rightarrow> string \<Rightarrow> string" where
  "go_index m k = (case map_of m k of None \<Rightarrow> '''' | Some v \<Rightarrow> v)"

text \<open>The keys of a map, each once.\<close>

definition go_keys :: "gomap \<Rightarrow> string list" where
  "go_keys m = remdups (map fst m)"

text \<open>
  \<open>for k, v := range m\<close>: each key once with the value stored under it. Go leaves the
  order open; the loops below that range over a map give the same result in any order.
\<close>

definition go_range :: "gomap \<Rightarrow> (string \<times> string) list" where
  "go_range m = map (\<lambda>k. (k, go_index m k)) (go_keys m)"

text \<open>\<open>strings.Join(elems, sep)\<close>.\<close>

fun strings_Join :: "string list \<Rightarrow> string \<Rightarrow> string" where
  "strings_Join [] sep = ''''"
| "strings_Join [x] sep = x"
| "strings_Join (x # y # ys) sep = x @ sep @ strings_Join (y # ys) sep"

text \<open>
  \<open>fmt\<close>'s \<open>%v\<close> of a \<open>map[string]string\<close>: \<open>map[k1:v1 k2:v2]\<close>, keys in increasing
  byte order.
\<close>

definition fmt_map :: "gomap \<Rightarrow> string" where
  "fmt_map m =
     ''map['' @ strings_Join (map (\<lambda>k. k @ '':'' @ go_index m k) (sort (go_keys m))) '' '' @ '']''"

text \<open>
  Modelled from the spec: the type \<open>SignedPayload\<close> is declared in a file of the package
  that is not part of the sources at hand. The spec (3) gives it a payload byte sequence and
  the base64 text of the signature; the code reads \<open>sp.Base64Signature\<close> and
  \<open>sp.Payload\<close>.
\<close>

record SignedPayload =
  Base64Signature :: string
  Payload :: bytes

text \<open>
  \<open>v1.Hash\<close> of go-containerregistry and its \<open>String()\<close>, which is
  \<open>fmt.Sprintf("%s:%s", h.Algorithm, h.Hex)\<close>.
\<close>

record Hash =
  Algorithm :: string
  Hex :: string

definition Hash_String :: "Hash \<Rightarrow> string" where
  "Hash_String h = Algorithm h @ '':'' @ Hex h"

text \<open>\<open>v1.Descriptor\<close>, the fields the code reads.\<close>

record Descriptor =
  MediaType :: string
  Digest :: Hash
  Annotations :: gomap

text \<open>
  Modelled from the spec: the type \<open>SimpleSigning\<close> is declared in a file of the package
  that is not part of the sources at hand. The spec (4.2) gives its shape: a nested
  "critical, image, docker-manifest-digest" field for the digest and an "optional" mapping
  for annotations; the code reads \<open>ss.Critical.Image.DockerManifestDigest\<close> and
  \<open>ss.Optional\<close>.
\<close>

record Image =
  DockerManifestDigest :: string

record Critical =
  Image :: Image

record SimpleSigning =
  Critical :: Critical
  Optional :: gomap

text \<open>
  What the code calls outside this file, taken as parameters: \<open>base64.StdEncoding.DecodeString\<close>,
  \<open>ed25519.Verify\<close>, \<open>json.Unmarshal\<close> into a \<open>v1.Descriptor\<close> and into a
  \<open>SimpleSigning\<close> (\<open>Inl\<close> is the text of the error returned), and \<open>FetchSignatures\<close>,
  which reads the registry.
\<close>

record extern =
  base64_DecodeString :: "string \<Rightarrow> string + bytes"
  ed25519_Verify :: "bytes \<Rightarrow> bytes \<Rightarrow> bytes \<Rightarrow> bool"
  json_Unmarshal_Descriptor :: "bytes \<Rightarrow> string + Descriptor"
  json_Unmarshal_SimpleSigning :: "bytes \<Rightarrow> string + SimpleSigning"
  FetchSignatures :: "string \<Rightarrow> string + (SignedPayload list \<times> Descriptor)"

text \<open>\<open>types.OCIManifestSchema1\<close> of go-containerregistry.\<close>

definition OCIManifestSchema1 :: string where
  "OCIManifestSchema1 = ''application/vnd.oci.image.manifest.v1+json''"

section \<open>The functions of verify.go\<close>

definition VerifySignature :: "extern \<Rightarrow> bytes \<Rightarrow> string \<Rightarrow> bytes \<Rightarrow> string option" where
  "VerifySignature E pubkey base64sig payload =
     (case base64_DecodeString E base64sig of
        Inl err \<Rightarrow> Some err
      | Inr signature \<Rightarrow>
          if \<not> ed25519_Verify E pubkey payload signature
          then Some ''unable to verify signature''
          else None)"

text \<open>
  The loop of \<open>validSignatures\<close>; the state is \<open>(validSignatures, validationErrs)\<close>.
\<close>

fun validSignatures_loop ::
  "extern \<Rightarrow> bytes \<Rightarrow> SignedPayload list \<Rightarrow> SignedPayload list \<times> string list
     \<Rightarrow> SignedPayload list \<times> string list" where
  "validSignatures_loop E pubKey [] (valid, validationErrs) = (valid, validationErrs)"
| "validSignatures_loop E pubKey (sp # rest) (valid, validationErrs) =
     (case VerifySignature E pubKey (Base64Signature sp) (Payload sp) of
        Some err \<Rightarrow> validSignatures_loop E pubKey rest (valid, validationErrs @ [err])
      | None \<Rightarrow> validSignatures_loop E pubKey rest (valid @ [sp], validationErrs))"

definition validSignatures ::
  "extern \<Rightarrow> bytes \<Rightarrow> SignedPayload list \<Rightarrow> string + SignedPayload list" where
  "validSignatures E pubKey signatures =
     (case validSignatures_loop E pubKey signatures ([], []) of
        (valid, validationErrs) \<Rightarrow>
          if length valid = 0
          then Inl (''no matching signatures:\<newline>'' @ strings_Join validationErrs ''\<newline>  '')
          else Inr valid)"

text \<open>
  \<open>digestAndClaims\<close> returns three values, and its caller reads the first two also when
  the third is an error: the result is the triple.
\<close>

definition digestAndClaims ::
  "extern \<Rightarrow> Descriptor \<Rightarrow> SignedPayload \<Rightarrow> string \<times> gomap \<times> string option" where
  "digestAndClaims E desc sp =
     (if MediaType desc = OCIManifestSchema1 then
        (case json_Unmarshal_Descriptor E (Payload sp) of
           Inl err \<Rightarrow> ('''', [], Some err)
         | Inr d \<Rightarrow> (Hash_String (Digest d), Annotations d, None))
      else if MediaType desc = ''application/vnd.dev.cosign.simplesigning.v1+json'' then
        (case json_Unmarshal_SimpleSigning E (Payload sp) of
           Inl err \<Rightarrow> ('''', [], Some err)
         | Inr ss \<Rightarrow> (DockerManifestDigest (Image (Critical ss)), Optional ss, None))
      else
        ('''', [],
         Some (''unexpected mediaType for '' @ Hash_String (Digest desc) @ '': '' @ MediaType desc)))"

text \<open>The loop of \<open>correctAnnotations\<close> over the entries of \<open>wanted\<close>.\<close>

fun correctAnnotations_loop :: "(string \<times> string) list \<Rightarrow> gomap \<Rightarrow> bool" where
  "correctAnnotations_loop [] have = True"
| "correctAnnotations_loop ((k, v) # rest) have =
     (if go_index have k \<noteq> v then False else correctAnnotations_loop rest have)"

definition correctAnnotations :: "gomap \<Rightarrow> gomap \<Rightarrow> bool" where
  "correctAnnotations wanted have = correctAnnotations_loop (go_range wanted) have"

text \<open>
  One iteration of the loop of \<open>verifyClaims\<close>; the state is
  \<open>(checkClaimErrs, verifiedPayloads)\<close>. After an error of \<open>digestAndClaims\<close> the loop
  body goes on to the digest comparison.
\<close>

definition verifyClaims_step ::
  "extern \<Rightarrow> Descriptor \<Rightarrow> gomap \<Rightarrow> SignedPayload \<Rightarrow> string list \<times> SignedPayload list
     \<Rightarrow> string list \<times> SignedPayload list" where
  "verifyClaims_step E desc annotations sp st =
     (case st of (checkClaimErrs, verifiedPayloads) \<Rightarrow>
      (case digestAndClaims E desc sp of (foundDigest, foundAnnotations, err) \<Rightarrow>
         let checkClaimErrs1 = (case err of Some e \<Rightarrow> checkClaimErrs @ [e] | None \<Rightarrow> checkClaimErrs)
         in if foundDigest \<noteq> Hash_String (Digest desc) then
              (checkClaimErrs1 @ [''invalid or missing digest in claim: '' @ foundDigest],
               verifiedPayloads)
            else if \<not> correctAnnotations annotations foundAnnotations then
              (checkClaimErrs1 @ [''invalid or missing annotation in claim: '' @ fmt_map foundAnnotations],
               verifiedPayloads)
            else (checkClaimErrs1, verifiedPayloads @ [sp])))"

fun verifyClaims_loop ::
  "extern \<Rightarrow> Descriptor \<Rightarrow> gomap \<Rightarrow> SignedPayload list \<Rightarrow> string list \<times> SignedPayload list
     \<Rightarrow> string list \<times> SignedPayload list" where
  "verifyClaims_loop E desc annotations [] st = st"
| "verifyClaims_loop E desc annotations (sp # rest) st =
     verifyClaims_loop E desc annotations rest (verifyClaims_step E desc annotations sp st)"

definition verifyClaims ::
  "extern \<Rightarrow> Descriptor \<Rightarrow> gomap \<Rightarrow> SignedPayload list \<Rightarrow> string + SignedPayload list" where
  "verifyClaims E desc annotations signatures =
     (case verifyClaims_loop E desc annotations signatures ([], []) of
        (checkClaimErrs, verifiedPayloads) \<Rightarrow>
          if length verifiedPayloads = 0
          then Inl (''no matching claims:\<newline>'' @ strings_Join checkClaimErrs ''\<newline>  '')
          else Inr verifiedPayloads)"

definition Verify ::
  "extern \<Rightarrow> string \<Rightarrow> bytes \<Rightarrow> bool \<Rightarrow> gomap \<Rightarrow> string + SignedPayload list" where
  "Verify E ref pubKey checkClaims annotations =
     (case FetchSignatures E ref of
        Inl err \<Rightarrow> Inl err
      | Inr (signatures, desc) \<Rightarrow>
          (case validSignatures E pubKey signatures of
             Inl err \<Rightarrow> Inl err
           | Inr valid \<Rightarrow>
               if \<not> checkClaims then Inr valid
               else (case verifyClaims E desc annotations valid of
                       Inl err \<Rightarrow> Inl err
                     | Inr verified \<Rightarrow> Inr verified)))"

section \<open>Notions the properties are stated with\<close>

text \<open>A candidate passes phase 1 when \<open>VerifySignature\<close> returns no error.\<close>

definition signature_valid :: "extern \<Rightarrow> bytes \<Rightarrow> SignedPayload \<Rightarrow> bool" where
  "signature_valid E pubKey sp =
     (VerifySignature E pubKey (Base64Signature sp) (Payload sp) = None)"

text \<open>The error texts of the candidates that fail phase 1, in candidate order.\<close>

definition signature_errs :: "extern \<Rightarrow> bytes \<Rightarrow> SignedPayload list \<Rightarrow> string list" where
  "signature_errs E pubKey signatures =
     List.map_filter (\<lambda>sp. VerifySignature E pubKey (Base64Signature sp) (Payload sp)) signatures"

text \<open>What one iteration of the loop of \<open>verifyClaims\<close> appends to \<open>checkClaimErrs\<close>.\<close>

definition claim_errs :: "extern \<Rightarrow> Descriptor \<Rightarrow> gomap \<Rightarrow> SignedPayload \<Rightarrow> string list" where
  "claim_errs E desc annotations sp = fst (verifyClaims_step E desc annotations sp ([], []))"

text \<open>
  The two comparisons an iteration of the loop of \<open>verifyClaims\<close> makes before it
  appends to \<open>verifiedPayloads\<close>.
\<close>

definition claim_kept :: "extern \<Rightarrow> Descriptor \<Rightarrow> gomap \<Rightarrow> SignedPayload \<Rightarrow> bool" where
  "claim_kept E desc annotations sp =
     (case digestAndClaims E desc sp of (foundDigest, foundAnnotations, err) \<Rightarrow>
        foundDigest = Hash_String (Digest desc) \<and> correctAnnotations annotations foundAnnotations)"

text \<open>
  The annotation match in the words of the spec (4.3): every key of the wanted map is
  present in the claim's map with an identical value.
\<close>

definition annotations_subset :: "gomap \<Rightarrow> gomap \<Rightarrow> bool" where
  "annotations_subset wanted have =
     list_all (\<lambda>k. map_of have k = map_of wanted k) (go_keys wanted)"

section \<open>An example environment\<close>

text \<open>
  Stand-ins for the libraries and the registry, and a few candidates, on which the
  theorems below are run: the base64 text \<open>c2ln\<close> decodes to the one signature the
  key \<open>key\<close> accepts, and a payload that opens with a brace decodes, its remaining bytes
  being the digest it asserts.
\<close>

definition example_extern :: "SignedPayload list \<Rightarrow> Descriptor \<Rightarrow> extern" where
  "example_extern candidates desc =
     \<lparr>base64_DecodeString =
        (\<lambda>s. if s = ''c2ln'' then Inr ''sig''
             else if s = ''YmFk'' then Inr ''bad''
             else Inl ''illegal base64 data at input byte 0''),
      ed25519_Verify = (\<lambda>pubkey payload signature. pubkey = ''key'' \<and> signature = ''sig''),
      json_Unmarshal_Descriptor =
        (\<lambda>b. if b \<noteq> [] \<and> hd b = CHR ''{''
             then Inr \<lparr>MediaType = '''', Digest = \<lparr>Algorithm = ''sha256'', Hex = tl b\<rparr>,
                       Annotations = []\<rparr>
             else Inl ''unexpected end of JSON input''),
      json_Unmarshal_SimpleSigning =
        (\<lambda>b. if b \<noteq> [] \<and> hd b = CHR ''{''
             then Inr \<lparr>Critical = \<lparr>Image = \<lparr>DockerManifestDigest = tl b\<rparr>\<rparr>,
                       Optional = [(''env'', ''prod'')]\<rparr>
             else Inl ''unexpected end of JSON input''),
      FetchSignatures = (\<lambda>ref. Inr (candidates, desc))\<rparr>"

definition sp_abc :: SignedPayload where
  "sp_abc = \<lparr>Base64Signature = ''c2ln'', Payload = ''{sha256:abc''\<rparr>"

definition sp_def :: SignedPayload where
  "sp_def = \<lparr>Base64Signature = ''c2ln'', Payload = ''{sha256:def''\<rparr>"

definition sp_garbage :: SignedPayload where
  "sp_garbage = \<lparr>Base64Signature = ''c2ln'', Payload = ''garbage''\<rparr>"

definition sp_badsig :: SignedPayload where
  "sp_badsig = \<lparr>Base64Signature = ''YmFk'', Payload = ''{sha256:abc''\<rparr>"

definition sp_notb64 :: SignedPayload where
  "sp_notb64 = \<lparr>Base64Signature = ''!'', Payload = ''{sha256:abc''\<rparr>"

definition desc_abc :: "string \<Rightarrow> Descriptor" where
  "desc_abc mt = \<lparr>MediaType = mt, Digest = \<lparr>Algorithm = ''sha256'', Hex = ''abc''\<rparr>, Annotations = []\<rparr>"

definition sp_forged :: SignedPayload where
  "sp_forged = \<lparr>Base64Signature = ''YmFk'', Payload = ''{forged''\<rparr>"

text \<open>The media type of the simple-signing format, as \<open>digestAndClaims\<close> spells it.\<close>

definition simplesigning :: string where
  "simplesigning = ''application/vnd.dev.cosign.simplesigning.v1+json''"

section \<open>The loops in closed form\<close>

lemma validSignatures_loop_eq:
  "validSignatures_loop E pubKey signatures (valid, errs) =
     (valid @ filter (signature_valid E pubKey) signatures, errs @ signature_errs E pubKey signatures)"
proof (induction signatures arbitrary: valid errs)
  case Nil
  show ?case by (simp add: signature_errs_def List.map_filter_simps)
next
  case (Cons sp rest)
  show ?case
    by (cases "VerifySignature E pubKey (Base64Signature sp) (Payload sp)")
       (simp_all add: Cons.IH signature_valid_def signature_errs_def List.map_filter_simps)
qed

lemma validSignatures_eq:
  "validSignatures E pubKey signatures =
     (if filter (signature_valid E pubKey) signatures = []
      then Inl (''no matching signatures:\<newline>'' @
                strings_Join (signature_errs E pubKey signatures) ''\<newline>  '')
      else Inr (filter (signature_valid E pubKey) signatures))"
  by (simp add: validSignatures_def validSignatures_loop_eq)

lemma verifyClaims_step_eq:
  "verifyClaims_step E desc annotations sp (errs, kept) =
     (errs @ claim_errs E desc annotations sp,
      kept @ (if claim_kept E desc annotations sp then [sp] else []))"
  by (simp add: verifyClaims_step_def claim_errs_def claim_kept_def Let_def
           split: prod.splits option.splits)

lemma verifyClaims_loop_eq:
  "verifyClaims_loop E desc annotations signatures (errs, kept) =
     (errs @ concat (map (claim_errs E desc annotations) signatures),
      kept @ filter (claim_kept E desc annotations) signatures)"
  by (induction signatures arbitrary: errs kept) (simp_all add: verifyClaims_step_eq)

lemma verifyClaims_eq:
  "verifyClaims E desc annotations signatures =
     (if filter (claim_kept E desc annotations) signatures = []
      then Inl (''no matching claims:\<newline>'' @
                strings_Join (concat (map (claim_errs E desc annotations) signatures)) ''\<newline>  '')
      else Inr (filter (claim_kept E desc annotations) signatures))"
  by (simp add: verifyClaims_def verifyClaims_loop_eq)

text \<open>The text of a \<open>v1.Hash\<close> holds a colon: it is never the empty string.\<close>

lemma Hash_String_nonempty: "Hash_String h \<noteq> ''''"
  by (simp add: Hash_String_def)

lemma digestAndClaims_err:
  "digestAndClaims E desc sp = (d, a, Some e) \<Longrightarrow> d = '''' \<and> a = []"
  by (auto simp: digestAndClaims_def split: if_splits sum.splits)

text \<open>
  An item whose extraction failed has the empty string as its digest, which no
  descriptor digest equals: the digest comparison drops it.
\<close>

lemma claim_kept_iff:
  "claim_kept E desc annotations sp \<longleftrightarrow>
     (case digestAndClaims E desc sp of (d, a, err) \<Rightarrow>
        err = None \<and> d = Hash_String (Digest desc) \<and> correctAnnotations annotations a)"
proof (cases "digestAndClaims E desc sp")
  case (fields d a err)
  show ?thesis
  proof (cases err)
    case None
    with fields show ?thesis by (simp add: claim_kept_def)
  next
    case (Some e)
    with fields digestAndClaims_err[of E desc sp d a e] Hash_String_nonempty[of "Digest desc"]
    show ?thesis by (auto simp: claim_kept_def)
  qed
qed

lemmas example_defs =
  example_extern_def sp_abc_def sp_def_def sp_garbage_def sp_badsig_def sp_notb64_def desc_abc_def

lemmas model_defs =
  Verify_def validSignatures_def verifyClaims_def verifyClaims_step_def digestAndClaims_def
  VerifySignature_def correctAnnotations_def go_range_def go_keys_def go_index_def
  Hash_String_def OCIManifestSchema1_def fmt_map_def signature_valid_def

lemma claim_errs_eq:
  "claim_errs E desc annotations sp =
     (case digestAndClaims E desc sp of (d, a, err) \<Rightarrow>
        (case err of Some e \<Rightarrow> [e] | None \<Rightarrow> []) @
        (if d \<noteq> Hash_String (Digest desc) then [''invalid or missing digest in claim: '' @ d]
         else if \<not> correctAnnotations annotations a
           then [''invalid or missing annotation in claim: '' @ fmt_map a]
         else []))"
  by (simp add: claim_errs_def verifyClaims_step_def Let_def split: prod.splits option.splits)

lemma claim_errs_extraction_failed:
  assumes "digestAndClaims E desc sp = (d, a, Some e)"
  shows "claim_errs E desc annotations sp = [e, ''invalid or missing digest in claim: '']"
    and "\<not> claim_kept E desc annotations sp"
proof -
  from assms have d: "d = ''''" by (simp add: digestAndClaims_err)
  with assms Hash_String_nonempty[of "Digest desc"]
  show "claim_errs E desc annotations sp = [e, ''invalid or missing digest in claim: '']"
    by (auto simp: claim_errs_eq)
  from assms show "\<not> claim_kept E desc annotations sp"
    by (simp add: claim_kept_iff)
qed


lemma claim_errs_digest_mismatch:
  "digestAndClaims E desc sp = (d, a, None) \<Longrightarrow> d \<noteq> Hash_String (Digest desc) \<Longrightarrow>
     claim_errs E desc annotations sp = [''invalid or missing digest in claim: '' @ d]"
  by (simp add: claim_errs_eq)

lemma claim_errs_annotation_mismatch:
  "digestAndClaims E desc sp = (d, a, None) \<Longrightarrow> d = Hash_String (Digest desc) \<Longrightarrow>
     \<not> correctAnnotations annotations a \<Longrightarrow>
     claim_errs E desc annotations sp = [''invalid or missing annotation in claim: '' @ fmt_map a]"
  by (simp add: claim_errs_eq)

lemma claim_errs_accepted:
  "digestAndClaims E desc sp = (d, a, None) \<Longrightarrow> d = Hash_String (Digest desc) \<Longrightarrow>
     correctAnnotations annotations a \<Longrightarrow> claim_errs E desc annotations sp = []"
  by (simp add: claim_errs_eq)

lemma claim_kept_None:
  "digestAndClaims E desc sp = (d, a, None) \<Longrightarrow>
     claim_kept E desc annotations sp \<longleftrightarrow>
       d = Hash_String (Digest desc) \<and> correctAnnotations annotations a"
  by (simp add: claim_kept_def)

lemma Verify_eq:
  "FetchSignatures E ref = Inr (candidates, desc) \<Longrightarrow>
   Verify E ref pubKey checkClaims annotations =
     (if filter (signature_valid E pubKey) candidates = []
      then Inl (''no matching signatures:\<newline>'' @
                strings_Join (signature_errs E pubKey candidates) ''\<newline>  '')
      else if \<not> checkClaims then Inr (filter (signature_valid E pubKey) candidates)
      else verifyClaims E desc annotations (filter (signature_valid E pubKey) candidates))"
  by (simp add: Verify_def validSignatures_eq split: sum.splits)

lemma signature_errs_all_failed:
  "\<forall>sp\<in>set candidates. \<not> signature_valid E pubKey sp \<Longrightarrow>
   map Some (signature_errs E pubKey candidates) =
     map (\<lambda>sp. VerifySignature E pubKey (Base64Signature sp) (Payload sp)) candidates"
  by (induction candidates)
     (auto simp: signature_errs_def signature_valid_def List.map_filter_simps)

lemma VerifySignature_no_newline:
  assumes "\<forall>s e. base64_DecodeString E s = Inl e \<longrightarrow> CHR ''\<newline>'' \<notin> set e"
    and "VerifySignature E pubKey sig payload = Some m"
  shows "CHR ''\<newline>'' \<notin> set m"
  using assms by (auto simp: VerifySignature_def split: sum.splits if_splits)

lemma signature_errs_no_newline:
  assumes "\<forall>s e. base64_DecodeString E s = Inl e \<longrightarrow> CHR ''\<newline>'' \<notin> set e"
    and "m \<in> set (signature_errs E pubKey candidates)"
  shows "CHR ''\<newline>'' \<notin> set m"
proof -
  from assms(2) have
    "\<exists>sp::SignedPayload. VerifySignature E pubKey (Base64Signature sp) (Payload sp) = Some m"
    unfolding signature_errs_def List.map_filter_def by auto
  then obtain sp :: SignedPayload where
    "VerifySignature E pubKey (Base64Signature sp) (Payload sp) = Some m" ..
  with assms(1) show ?thesis by (rule VerifySignature_no_newline)
qed

lemma count_list_append: "count_list (xs @ ys) c = count_list xs c + count_list ys c"
  by (induction xs) simp_all

lemma count_list_notin: "c \<notin> set xs \<Longrightarrow> count_list xs c = 0"
  by (induction xs) auto

lemma count_newline_Join:
  "\<forall>m\<in>set ms. CHR ''\<newline>'' \<notin> set m \<Longrightarrow>
   count_list (strings_Join ms ''\<newline>  '') CHR ''\<newline>'' = length ms - 1"
  by (induction ms "''\<newline>  ''" rule: strings_Join.induct)
     (simp_all add: count_list_append count_list_notin)

section \<open>The annotation matcher\<close>

lemma correctAnnotations_loop_eq:
  "correctAnnotations_loop entries have = list_all (\<lambda>(k, v). go_index have k = v) entries"
  by (induction entries "have" rule: correctAnnotations_loop.induct) simp_all

lemma correctAnnotations_iff:
  "correctAnnotations wanted have \<longleftrightarrow>
     (\<forall>k\<in>set (go_keys wanted). go_index have k = go_index wanted k)"
  by (simp add: correctAnnotations_def correctAnnotations_loop_eq go_range_def list_all_iff)

lemma set_go_keys: "set (go_keys m) = fst ` set m"
  by (simp add: go_keys_def)

lemma go_keys_present: "k \<in> set (go_keys m) \<Longrightarrow> map_of m k = Some (go_index m k)"
proof -
  assume "k \<in> set (go_keys m)"
  then have "map_of m k \<noteq> None" by (simp add: set_go_keys map_of_eq_None_iff)
  then show ?thesis by (auto simp: go_index_def)
qed

lemma go_index_filter_other:
  "k' \<noteq> k \<Longrightarrow> go_index (filter (\<lambda>e. fst e \<noteq> k) m) k' = go_index m k'"
  by (induction m) (auto simp: go_index_def)

lemma set_go_keys_filter:
  "set (go_keys (filter (\<lambda>e. fst e \<noteq> k) m)) = set (go_keys m) - {k}"
  by (auto simp: set_go_keys)

text \<open>
  C2, as amended. \<open>correctAnnotations wanted have\<close> is true exactly when every key of
  \<open>wanted\<close> reads in \<open>have\<close> as the wanted value, where a key absent from \<open>have\<close> reads as
  the empty string. So, when no wanted value is the empty string, it is true exactly when
  every wanted key is present in \<open>have\<close> with an identical value. Entries of \<open>have\<close> under
  keys that are not wanted do not matter, and an empty \<open>wanted\<close> always matches.
\<close>

theorem correctAnnotations_reads:
  "(correctAnnotations wanted have \<longleftrightarrow>
      (\<forall>k\<in>set (go_keys wanted). go_index have k = go_index wanted k))
   \<and> ((\<forall>k\<in>set (go_keys wanted). go_index wanted k \<noteq> '''') \<longrightarrow>
        correctAnnotations wanted have = annotations_subset wanted have)
   \<and> ((\<forall>k\<in>set (go_keys wanted). map_of have' k = map_of have k) \<longrightarrow>
        correctAnnotations wanted have' = correctAnnotations wanted have)
   \<and> correctAnnotations [] have"
proof (intro conjI impI)
  show "correctAnnotations wanted have \<longleftrightarrow>
      (\<forall>k\<in>set (go_keys wanted). go_index have k = go_index wanted k)"
    by (rule correctAnnotations_iff)
next
  assume ne: "\<forall>k\<in>set (go_keys wanted). go_index wanted k \<noteq> ''''"
  have "go_index have k = go_index wanted k \<longleftrightarrow> map_of have k = map_of wanted k"
    if "k \<in> set (go_keys wanted)" for k
  proof -
    from that have p: "map_of wanted k = Some (go_index wanted k)" by (rule go_keys_present)
    from that ne have "go_index wanted k \<noteq> ''''" by blast
    with p show ?thesis by (auto simp: go_index_def split: option.splits)
  qed
  then show "correctAnnotations wanted have = annotations_subset wanted have"
    by (simp add: correctAnnotations_iff annotations_subset_def list_all_iff)
next
  assume "\<forall>k\<in>set (go_keys wanted). map_of have' k = map_of have k"
  then show "correctAnnotations wanted have' = correctAnnotations wanted have"
    by (simp add: correctAnnotations_iff go_index_def)
next
  show "correctAnnotations [] have"
    by (simp add: correctAnnotations_iff go_keys_def)
qed

theorem correctAnnotations_reads_witness:
  "correctAnnotations [(''env'', ''prod'')] [(''team'', ''infra''), (''env'', ''prod'')]
   \<and> annotations_subset [(''env'', ''prod'')] [(''team'', ''infra''), (''env'', ''prod'')]
   \<and> correctAnnotations [(''env'', ''prod'')] [(''env'', ''prod'')]
   \<and> \<not> correctAnnotations [(''env'', ''prod'')] [(''env'', ''test'')]"
  using correctAnnotations_reads [of "[(''env'', ''prod'')]"
          "[(''team'', ''infra''), (''env'', ''prod'')]" "[(''env'', ''prod'')]"]
    correctAnnotations_reads [of "[(''env'', ''prod'')]" "[(''env'', ''test'')]"]
  by (simp add: go_keys_def go_index_def annotations_subset_def)

text \<open>
  C2 as stated fails: the wanted key \<open>env\<close> with the empty string as its value is not
  present in the empty map, and \<open>correctAnnotations\<close> is true all the same.
\<close>

theorem correctAnnotations_absent_key_counterexample:
  "correctAnnotations [(''env'', '''')] [] \<and> \<not> annotations_subset [(''env'', '''')] []"
  by (simp add: correctAnnotations_def go_range_def go_keys_def go_index_def annotations_subset_def)

text \<open>
  C10. A wanted annotation whose value is the empty string is satisfied by a map that
  lacks the key: with such an entry under \<open>k\<close> and \<open>k\<close> absent from \<open>have\<close>, the result is
  the one for \<open>wanted\<close> without \<open>k\<close>; alone, the entry matches every map that lacks \<open>k\<close>,
  the nil map among them.
\<close>

theorem correctAnnotations_empty_value:
  "(map_of wanted k = Some '''' \<and> map_of have k = None \<longrightarrow>
      correctAnnotations wanted have =
      correctAnnotations (filter (\<lambda>e. fst e \<noteq> k) wanted) have)
   \<and> (map_of have k = None \<longrightarrow> correctAnnotations [(k, '''')] have)
   \<and> correctAnnotations [(k, '''')] []"
proof (intro conjI impI)
  assume h: "map_of wanted k = Some '''' \<and> map_of have k = None"
  then have a: "go_index have k = go_index wanted k" by (simp add: go_index_def)
  show "correctAnnotations wanted have =
      correctAnnotations (filter (\<lambda>e. fst e \<noteq> k) wanted) have"
    unfolding correctAnnotations_iff set_go_keys_filter
    using a by (auto simp: go_index_filter_other)
next
  assume "map_of have k = None"
  then show "correctAnnotations [(k, '''')] have"
    by (simp add: correctAnnotations_iff go_keys_def go_index_def)
next
  show "correctAnnotations [(k, '''')] []"
    by (simp add: correctAnnotations_iff go_keys_def go_index_def)
qed

theorem correctAnnotations_empty_value_witness:
  "correctAnnotations [(''env'', ''''), (''team'', ''infra'')] [(''team'', ''infra'')]
   \<and> correctAnnotations [(''env'', '''')] [(''team'', ''infra'')]
   \<and> correctAnnotations [(''env'', '''')] []"
  using correctAnnotations_empty_value
          [of "[(''env'', ''''), (''team'', ''infra'')]" "''env''" "[(''team'', ''infra'')]"]
  by (simp add: correctAnnotations_def go_range_def go_keys_def go_index_def)

section \<open>Phase 2: the claims of the survivors\<close>

text \<open>
  C1. Let the loop of \<open>verifyClaims\<close> over the phase-1 survivors end with the errors
  \<open>errs\<close> and the payloads \<open>kept\<close>. A survivor whose extraction fails has its error in
  \<open>errs\<close> and is not kept; a survivor whose extraction succeeds and whose digest or
  annotations do not match has the message of that mismatch in \<open>errs\<close> and is not kept;
  every other survivor is kept. \<open>kept\<close> is the survivors filtered by that test, whatever
  the other items did, and the call fails only when \<open>kept\<close> is empty.
\<close>

theorem verifyClaims_items:
  assumes "verifyClaims_loop E desc annotations survivors ([], []) = (errs, kept)"
  shows "kept = filter (\<lambda>sp. case digestAndClaims E desc sp of (d, a, err) \<Rightarrow>
                   err = None \<and> d = Hash_String (Digest desc) \<and> correctAnnotations annotations a)
                 survivors
    \<and> (\<forall>sp\<in>set survivors. case digestAndClaims E desc sp of (d, a, err) \<Rightarrow>
          (case err of
             Some e \<Rightarrow> e \<in> set errs \<and> sp \<notin> set kept
           | None \<Rightarrow>
               if d \<noteq> Hash_String (Digest desc)
               then (''invalid or missing digest in claim: '' @ d) \<in> set errs \<and> sp \<notin> set kept
               else if \<not> correctAnnotations annotations a
               then (''invalid or missing annotation in claim: '' @ fmt_map a) \<in> set errs
                    \<and> sp \<notin> set kept
               else sp \<in> set kept))
    \<and> verifyClaims E desc annotations survivors =
        (if kept = [] then Inl (''no matching claims:\<newline>'' @ strings_Join errs ''\<newline>  '')
         else Inr kept)"
proof (intro conjI ballI)
  from assms have errs: "errs = concat (map (claim_errs E desc annotations) survivors)"
    and kept: "kept = filter (claim_kept E desc annotations) survivors"
    by (simp_all add: verifyClaims_loop_eq)
  show "kept = filter (\<lambda>sp. case digestAndClaims E desc sp of (d, a, err) \<Rightarrow>
                   err = None \<and> d = Hash_String (Digest desc) \<and> correctAnnotations annotations a)
                 survivors"
    unfolding kept by (rule filter_cong) (simp_all add: claim_kept_iff)
  show "verifyClaims E desc annotations survivors =
        (if kept = [] then Inl (''no matching claims:\<newline>'' @ strings_Join errs ''\<newline>  '')
         else Inr kept)"
    unfolding errs kept by (simp only: verifyClaims_eq)
  fix sp assume sp: "sp \<in> set survivors"
  obtain d a err where fields: "digestAndClaims E desc sp = (d, a, err)"
    by (cases "digestAndClaims E desc sp")
  from sp have sub: "\<And>m. m \<in> set (claim_errs E desc annotations sp) \<Longrightarrow> m \<in> set errs"
    unfolding errs by auto
  from sp have mem: "sp \<in> set kept \<longleftrightarrow> claim_kept E desc annotations sp"
    unfolding kept by simp
  have "case err of
             Some e \<Rightarrow> e \<in> set errs \<and> sp \<notin> set kept
           | None \<Rightarrow>
               if d \<noteq> Hash_String (Digest desc)
               then (''invalid or missing digest in claim: '' @ d) \<in> set errs \<and> sp \<notin> set kept
               else if \<not> correctAnnotations annotations a
               then (''invalid or missing annotation in claim: '' @ fmt_map a) \<in> set errs
                    \<and> sp \<notin> set kept
               else sp \<in> set kept"
  proof (cases err)
    case (Some e)
    with fields have f: "digestAndClaims E desc sp = (d, a, Some e)" by simp
    have "e \<in> set errs"
      by (rule sub) (simp add: claim_errs_extraction_failed(1)[OF f])
    moreover have "sp \<notin> set kept"
      using claim_errs_extraction_failed(2)[OF f] mem by simp
    ultimately show ?thesis using Some by simp
  next
    case None
    with fields have f: "digestAndClaims E desc sp = (d, a, None)" by simp
    note k = claim_kept_None[OF f, of annotations]
    show ?thesis
    proof (cases "d = Hash_String (Digest desc)")
      case False
      have "(''invalid or missing digest in claim: '' @ d) \<in> set errs"
        by (rule sub) (simp add: claim_errs_digest_mismatch[OF f False])
      with False None mem k show ?thesis by simp
    next
      case True
      show ?thesis
      proof (cases "correctAnnotations annotations a")
        case False
        have "(''invalid or missing annotation in claim: '' @ fmt_map a) \<in> set errs"
          by (rule sub) (simp add: claim_errs_annotation_mismatch[OF f True False])
        with True False None mem k show ?thesis by simp
      next
        case c: True
        with True None mem k show ?thesis by simp
      qed
    qed
  qed
  with fields show "case digestAndClaims E desc sp of (d, a, err) \<Rightarrow>
          (case err of
             Some e \<Rightarrow> e \<in> set errs \<and> sp \<notin> set kept
           | None \<Rightarrow>
               if d \<noteq> Hash_String (Digest desc)
               then (''invalid or missing digest in claim: '' @ d) \<in> set errs \<and> sp \<notin> set kept
               else if \<not> correctAnnotations annotations a
               then (''invalid or missing annotation in claim: '' @ fmt_map a) \<in> set errs
                    \<and> sp \<notin> set kept
               else sp \<in> set kept)"
    by simp
qed

theorem verifyClaims_items_witness:
  "verifyClaims_loop (example_extern [] (desc_abc simplesigning)) (desc_abc simplesigning)
       [(''env'', ''prod'')] [sp_abc, sp_def, sp_garbage] ([], []) =
     ([''invalid or missing digest in claim: sha256:def'', ''unexpected end of JSON input'',
       ''invalid or missing digest in claim: ''], [sp_abc])
   \<and> verifyClaims (example_extern [] (desc_abc simplesigning)) (desc_abc simplesigning)
       [(''env'', ''prod'')] [sp_abc, sp_def, sp_garbage] = Inr [sp_abc]"
proof -
  have h: "verifyClaims_loop (example_extern [] (desc_abc simplesigning)) (desc_abc simplesigning)
       [(''env'', ''prod'')] [sp_abc, sp_def, sp_garbage] ([], []) =
     ([''invalid or missing digest in claim: sha256:def'', ''unexpected end of JSON input'',
       ''invalid or missing digest in claim: ''], [sp_abc])"
    by (simp add: example_defs model_defs simplesigning_def)
  from verifyClaims_items[OF h] h show ?thesis by simp
qed

section \<open>Phase 1: the signatures of the candidates\<close>

text \<open>
  C3. When every candidate fails \<open>VerifySignature\<close>, \<open>Verify\<close> fails with the
  error \<open>no matching signatures:\<close>, whose text after that first line is the candidates'
  error texts, one for each candidate and in candidate order, joined by a newline (and two
  blanks of indentation). None of these texts holds a newline, provided base64's error
  texts hold none, so the joined text has one line for each failed candidate: it holds one
  newline less than there are candidates.
\<close>

theorem Verify_no_valid_signatures:
  assumes "FetchSignatures E ref = Inr (candidates, desc)"
    and "\<forall>sp\<in>set candidates. \<not> signature_valid E pubKey sp"
    and "\<forall>s e. base64_DecodeString E s = Inl e \<longrightarrow> CHR ''\<newline>'' \<notin> set e"
  shows "Verify E ref pubKey checkClaims annotations =
           Inl (''no matching signatures:\<newline>'' @
                strings_Join (signature_errs E pubKey candidates) ''\<newline>  '')
    \<and> map Some (signature_errs E pubKey candidates) =
        map (\<lambda>sp. VerifySignature E pubKey (Base64Signature sp) (Payload sp)) candidates
    \<and> length (signature_errs E pubKey candidates) = length candidates
    \<and> (\<forall>m\<in>set (signature_errs E pubKey candidates). CHR ''\<newline>'' \<notin> set m)
    \<and> count_list (strings_Join (signature_errs E pubKey candidates) ''\<newline>  '') CHR ''\<newline>'' =
        length candidates - 1"
proof (intro conjI)
  from assms(2) have none: "filter (signature_valid E pubKey) candidates = []"
    by (simp add: filter_empty_conv)
  show "Verify E ref pubKey checkClaims annotations =
           Inl (''no matching signatures:\<newline>'' @
                strings_Join (signature_errs E pubKey candidates) ''\<newline>  '')"
    by (simp add: Verify_eq[OF assms(1)] none)
  show m: "map Some (signature_errs E pubKey candidates) =
        map (\<lambda>sp. VerifySignature E pubKey (Base64Signature sp) (Payload sp)) candidates"
    using assms(2) by (rule signature_errs_all_failed)
  from m have "length (map Some (signature_errs E pubKey candidates)) =
      length (map (\<lambda>sp. VerifySignature E pubKey (Base64Signature sp) (Payload sp)) candidates)"
    by simp
  then show l: "length (signature_errs E pubKey candidates) = length candidates" by simp
  show n: "\<forall>m\<in>set (signature_errs E pubKey candidates). CHR ''\<newline>'' \<notin> set m"
    using signature_errs_no_newline[OF assms(3)] by blast
  show "count_list (strings_Join (signature_errs E pubKey candidates) ''\<newline>  '') CHR ''\<newline>'' =
        length candidates - 1"
    using count_newline_Join[OF n] l by simp
qed

theorem Verify_no_valid_signatures_witness:
  "Verify (example_extern [sp_notb64, sp_badsig] (desc_abc simplesigning)) ''img'' ''key'' True [] =
     Inl ''no matching signatures:\<newline>illegal base64 data at input byte 0\<newline>  unable to verify signature''
   \<and> signature_errs (example_extern [sp_notb64, sp_badsig] (desc_abc simplesigning)) ''key''
        [sp_notb64, sp_badsig] =
      [''illegal base64 data at input byte 0'', ''unable to verify signature'']"
proof -
  let ?E = "example_extern [sp_notb64, sp_badsig] (desc_abc simplesigning)"
  have f: "FetchSignatures ?E ''img'' = Inr ([sp_notb64, sp_badsig], desc_abc simplesigning)"
    by (simp add: example_extern_def)
  have v: "\<forall>sp\<in>set [sp_notb64, sp_badsig]. \<not> signature_valid ?E ''key'' sp"
    by (simp add: example_defs signature_valid_def VerifySignature_def)
  have n: "\<forall>s e. base64_DecodeString ?E s = Inl e \<longrightarrow> CHR ''\<newline>'' \<notin> set e"
    by (auto simp: example_extern_def split: if_splits)
  have s: "signature_errs ?E ''key'' [sp_notb64, sp_badsig] =
      [''illegal base64 data at input byte 0'', ''unable to verify signature'']"
    by (simp add: example_defs signature_errs_def VerifySignature_def List.map_filter_simps)
  from Verify_no_valid_signatures[OF f v n, of True "[]"] s show ?thesis by simp
qed

lemma VerifySignature_json_update:
  "VerifySignature (E\<lparr>json_Unmarshal_Descriptor := f, json_Unmarshal_SimpleSigning := g\<rparr>)
     pubKey base64sig payload = VerifySignature E pubKey base64sig payload"
  by (simp add: VerifySignature_def split: sum.splits)

lemma signature_valid_json_update:
  "signature_valid (E\<lparr>json_Unmarshal_Descriptor := f, json_Unmarshal_SimpleSigning := g\<rparr>) pubKey sp
     = signature_valid E pubKey sp"
  by (simp add: signature_valid_def VerifySignature_json_update)

lemma signature_errs_json_update:
  "signature_errs (E\<lparr>json_Unmarshal_Descriptor := f, json_Unmarshal_SimpleSigning := g\<rparr>) pubKey
     candidates = signature_errs E pubKey candidates"
  by (simp add: signature_errs_def VerifySignature_json_update)

section \<open>Verify without claim checking\<close>

text \<open>
  C4. With \<open>checkClaims\<close> false and at least one candidate passing phase 1, \<open>Verify\<close>
  returns exactly the candidates that pass phase 1. The result does not depend on the
  descriptor, on the wanted annotations or on what the two JSON decoders do: replacing
  both decoders by any others gives the same list, so a survivor whose payload is malformed
  or asserts another digest is returned all the same.
\<close>

theorem Verify_without_claims:
  assumes "FetchSignatures E ref = Inr (candidates, desc)"
    and "filter (signature_valid E pubKey) candidates \<noteq> []"
  shows "Verify E ref pubKey False annotations = Inr (filter (signature_valid E pubKey) candidates)
    \<and> Verify (E\<lparr>json_Unmarshal_Descriptor := f, json_Unmarshal_SimpleSigning := g\<rparr>)
          ref pubKey False annotations = Inr (filter (signature_valid E pubKey) candidates)"
proof
  show "Verify E ref pubKey False annotations = Inr (filter (signature_valid E pubKey) candidates)"
    using assms(2) by (simp add: Verify_eq[OF assms(1)])
  let ?E = "E\<lparr>json_Unmarshal_Descriptor := f, json_Unmarshal_SimpleSigning := g\<rparr>"
  have fe: "FetchSignatures ?E ref = Inr (candidates, desc)" using assms(1) by simp
  have sv: "signature_valid ?E pubKey = signature_valid E pubKey"
    by (rule ext) (rule signature_valid_json_update)
  show "Verify ?E ref pubKey False annotations = Inr (filter (signature_valid E pubKey) candidates)"
    using assms(2) by (simp add: Verify_eq[OF fe] sv)
qed

theorem Verify_without_claims_witness:
  "Verify (example_extern [sp_notb64, sp_garbage, sp_def] (desc_abc ''text/plain''))
      ''img'' ''key'' False [(''env'', ''test'')] = Inr [sp_garbage, sp_def]"
proof -
  let ?E = "example_extern [sp_notb64, sp_garbage, sp_def] (desc_abc ''text/plain'')"
  have f: "FetchSignatures ?E ''img'' = Inr ([sp_notb64, sp_garbage, sp_def], desc_abc ''text/plain'')"
    by (simp add: example_extern_def)
  have v: "filter (signature_valid ?E ''key'') [sp_notb64, sp_garbage, sp_def] = [sp_garbage, sp_def]"
    by (simp add: example_defs signature_valid_def VerifySignature_def)
  then have n: "filter (signature_valid ?E ''key'') [sp_notb64, sp_garbage, sp_def] \<noteq> []" by simp
  from Verify_without_claims[OF f n, of "[(''env'', ''test'')]"] v show ?thesis by simp
qed

section \<open>Order of the survivors\<close>

text \<open>
  C7. Whatever \<open>Verify\<close> returns is a subsequence of the candidate list fetched: the
  survivors keep their relative candidate order. The same holds for each phase alone:
  the result of \<open>validSignatures\<close> is a subsequence of its input, and so is the result of
  \<open>verifyClaims\<close>.
\<close>

theorem Verify_subseq:
  "(Verify E ref pubKey checkClaims annotations = Inr result \<longrightarrow>
      (\<exists>candidates desc. FetchSignatures E ref = Inr (candidates, desc) \<and> subseq result candidates))
   \<and> (validSignatures E pubKey candidates = Inr valid \<longrightarrow> subseq valid candidates)
   \<and> (verifyClaims E desc annotations valid = Inr verified \<longrightarrow> subseq verified valid)"
proof (intro conjI impI)
  assume v: "validSignatures E pubKey candidates = Inr valid"
  then show "subseq valid candidates"
    by (auto simp: validSignatures_eq split: if_splits)
next
  assume "verifyClaims E desc annotations valid = Inr verified"
  then show "subseq verified valid"
    by (auto simp: verifyClaims_eq split: if_splits)
next
  assume r: "Verify E ref pubKey checkClaims annotations = Inr result"
  then obtain candidates desc where f: "FetchSignatures E ref = Inr (candidates, desc)"
    by (cases "FetchSignatures E ref") (auto simp: Verify_def)
  let ?valid = "filter (signature_valid E pubKey) candidates"
  from r have "result = ?valid \<or> result = filter (claim_kept E desc annotations) ?valid"
    by (auto simp: Verify_eq[OF f] verifyClaims_eq split: if_splits)
  moreover have "subseq ?valid candidates" by simp
  moreover have "subseq (filter (claim_kept E desc annotations) ?valid) candidates"
    by (rule subseq_order.trans[OF subseq_filter_left subseq_filter_left])
  ultimately have "subseq result candidates" by auto
  with f show "\<exists>candidates desc. FetchSignatures E ref = Inr (candidates, desc) \<and> subseq result candidates"
    by blast
qed

theorem Verify_subseq_witness:
  "Verify (example_extern [sp_notb64, sp_abc, sp_badsig, sp_def, sp_garbage, sp_abc]
            (desc_abc simplesigning)) ''img'' ''key'' True [] = Inr [sp_abc, sp_abc]
   \<and> subseq [sp_abc, sp_abc] [sp_notb64, sp_abc, sp_badsig, sp_def, sp_garbage, sp_abc]"
proof -
  let ?E = "example_extern [sp_notb64, sp_abc, sp_badsig, sp_def, sp_garbage, sp_abc]
            (desc_abc simplesigning)"
  have r: "Verify ?E ''img'' ''key'' True [] = Inr [sp_abc, sp_abc]"
    by (simp add: example_defs model_defs simplesigning_def)
  have f: "FetchSignatures ?E ''img'' =
      Inr ([sp_notb64, sp_abc, sp_badsig, sp_def, sp_garbage, sp_abc], desc_abc simplesigning)"
    by (simp add: example_extern_def)
  from Verify_subseq[of ?E "''img''" "''key''" True "[]" "[sp_abc, sp_abc]"] r f
  show ?thesis by simp
qed

section \<open>Shape of the result\<close>

text \<open>
  C9. \<open>Verify\<close> returns either a list with at least one survivor and no error, or an
  error and no list. With an empty candidate list it returns the error
  \<open>no matching signatures:\<close> with nothing after that line.
\<close>

theorem Verify_result_shape:
  "((\<exists>survivors. Verify E ref pubKey checkClaims annotations = Inr survivors \<and> survivors \<noteq> [])
      \<or> (\<exists>err. Verify E ref pubKey checkClaims annotations = Inl err))
   \<and> (FetchSignatures E ref = Inr ([], desc) \<longrightarrow>
        Verify E ref pubKey checkClaims annotations = Inl ''no matching signatures:\<newline>'')"
proof (intro conjI impI)
  show "(\<exists>survivors. Verify E ref pubKey checkClaims annotations = Inr survivors \<and> survivors \<noteq> [])
      \<or> (\<exists>err. Verify E ref pubKey checkClaims annotations = Inl err)"
  proof (cases "FetchSignatures E ref")
    case (Inl err)
    then show ?thesis by (simp add: Verify_def)
  next
    case (Inr p)
    obtain candidates desc where "p = (candidates, desc)" by (cases p)
    with Inr have f: "FetchSignatures E ref = Inr (candidates, desc)" by simp
    show ?thesis by (simp add: Verify_eq[OF f] verifyClaims_eq)
  qed
next
  assume f: "FetchSignatures E ref = Inr ([], desc)"
  show "Verify E ref pubKey checkClaims annotations = Inl ''no matching signatures:\<newline>''"
    by (simp add: Verify_eq[OF f] signature_errs_def List.map_filter_simps)
qed

theorem Verify_result_shape_witness:
  "Verify (example_extern [] (desc_abc simplesigning)) ''img'' ''key'' True [] =
     Inl ''no matching signatures:\<newline>''"
proof -
  have f: "FetchSignatures (example_extern [] (desc_abc simplesigning)) ''img'' =
      Inr ([], desc_abc simplesigning)"
    by (simp add: example_extern_def)
  from Verify_result_shape[of "example_extern [] (desc_abc simplesigning)" "''img''" "''key''" True
      "[]" "desc_abc simplesigning"] f
  show ?thesis by simp
qed

lemma verifyClaims_loop_append:
  "verifyClaims_loop E desc annotations (xs @ ys) ([], []) =
     (fst (verifyClaims_loop E desc annotations xs ([], [])) @
        fst (verifyClaims_loop E desc annotations ys ([], [])),
      snd (verifyClaims_loop E desc annotations xs ([], [])) @
        snd (verifyClaims_loop E desc annotations ys ([], [])))"
  by (simp add: verifyClaims_loop_eq)

lemma verifyClaims_loop_single_failed:
  "digestAndClaims E desc sp = (d, a, Some e) \<Longrightarrow>
   verifyClaims_loop E desc annotations [sp] ([], []) =
     ([e, ''invalid or missing digest in claim: ''], [])"
  by (simp add: verifyClaims_loop_eq claim_errs_extraction_failed)

section \<open>Claim extraction\<close>

text \<open>
  C5. \<open>digestAndClaims\<close> decodes the payload as a descriptor (digest and annotations)
  when the media type is the OCI manifest one, and as a simple-signing document (the
  docker-manifest-digest of critical/image and the optional map) when it is the
  simple-signing one; a decode error is returned as it is. Every other media type gives the
  error \<open>unexpected mediaType for ...\<close>. Either error is a failure of that item alone: in
  the loop of \<open>verifyClaims\<close> it is appended to the errors and the items before and after
  are treated as they would be without it.
\<close>

theorem digestAndClaims_formats:
  "(MediaType desc = OCIManifestSchema1 \<longrightarrow>
      digestAndClaims E desc sp =
        (case json_Unmarshal_Descriptor E (Payload sp) of
           Inl err \<Rightarrow> ('''', [], Some err)
         | Inr d \<Rightarrow> (Hash_String (Digest d), Annotations d, None)))
   \<and> (MediaType desc = ''application/vnd.dev.cosign.simplesigning.v1+json'' \<longrightarrow>
      digestAndClaims E desc sp =
        (case json_Unmarshal_SimpleSigning E (Payload sp) of
           Inl err \<Rightarrow> ('''', [], Some err)
         | Inr ss \<Rightarrow> (DockerManifestDigest (Image (Critical ss)), Optional ss, None)))
   \<and> (MediaType desc \<noteq> OCIManifestSchema1
        \<and> MediaType desc \<noteq> ''application/vnd.dev.cosign.simplesigning.v1+json'' \<longrightarrow>
      digestAndClaims E desc sp =
        ('''', [],
         Some (''unexpected mediaType for '' @ Hash_String (Digest desc) @ '': '' @ MediaType desc)))
   \<and> (\<forall>e. snd (snd (digestAndClaims E desc sp)) = Some e \<longrightarrow>
        verifyClaims_loop E desc annotations (before @ sp # after) ([], []) =
          (fst (verifyClaims_loop E desc annotations before ([], [])) @
             [e, ''invalid or missing digest in claim: ''] @
             fst (verifyClaims_loop E desc annotations after ([], [])),
           snd (verifyClaims_loop E desc annotations before ([], [])) @
             snd (verifyClaims_loop E desc annotations after ([], []))))"
proof (intro conjI impI allI)
  assume "MediaType desc = OCIManifestSchema1"
  then show "digestAndClaims E desc sp =
        (case json_Unmarshal_Descriptor E (Payload sp) of
           Inl err \<Rightarrow> ('''', [], Some err)
         | Inr d \<Rightarrow> (Hash_String (Digest d), Annotations d, None))"
    by (simp add: digestAndClaims_def)
next
  assume "MediaType desc = ''application/vnd.dev.cosign.simplesigning.v1+json''"
  then show "digestAndClaims E desc sp =
        (case json_Unmarshal_SimpleSigning E (Payload sp) of
           Inl err \<Rightarrow> ('''', [], Some err)
         | Inr ss \<Rightarrow> (DockerManifestDigest (Image (Critical ss)), Optional ss, None))"
    by (simp add: digestAndClaims_def OCIManifestSchema1_def)
next
  assume "MediaType desc \<noteq> OCIManifestSchema1
        \<and> MediaType desc \<noteq> ''application/vnd.dev.cosign.simplesigning.v1+json''"
  then show "digestAndClaims E desc sp =
        ('''', [],
         Some (''unexpected mediaType for '' @ Hash_String (Digest desc) @ '': '' @ MediaType desc))"
    by (simp add: digestAndClaims_def)
next
  fix e assume e: "snd (snd (digestAndClaims E desc sp)) = Some e"
  obtain d a where f: "digestAndClaims E desc sp = (d, a, Some e)"
    using e by (cases "digestAndClaims E desc sp") auto
  have "verifyClaims_loop E desc annotations (before @ [sp] @ after) ([], []) =
          (fst (verifyClaims_loop E desc annotations before ([], [])) @
             [e, ''invalid or missing digest in claim: ''] @
             fst (verifyClaims_loop E desc annotations after ([], [])),
           snd (verifyClaims_loop E desc annotations before ([], [])) @
             snd (verifyClaims_loop E desc annotations after ([], [])))"
    by (simp only: verifyClaims_loop_append verifyClaims_loop_single_failed[OF f]
          fst_conv snd_conv append_Nil)
  then show "verifyClaims_loop E desc annotations (before @ sp # after) ([], []) =
          (fst (verifyClaims_loop E desc annotations before ([], [])) @
             [e, ''invalid or missing digest in claim: ''] @
             fst (verifyClaims_loop E desc annotations after ([], [])),
           snd (verifyClaims_loop E desc annotations before ([], [])) @
             snd (verifyClaims_loop E desc annotations after ([], [])))"
    by simp
qed

theorem digestAndClaims_formats_witness:
  "digestAndClaims (example_extern [] (desc_abc OCIManifestSchema1)) (desc_abc OCIManifestSchema1)
      \<lparr>Base64Signature = ''c2ln'', Payload = ''{abc''\<rparr> = (''sha256:abc'', [], None)
   \<and> digestAndClaims (example_extern [] (desc_abc simplesigning)) (desc_abc simplesigning) sp_abc
       = (''sha256:abc'', [(''env'', ''prod'')], None)
   \<and> digestAndClaims (example_extern [] (desc_abc simplesigning)) (desc_abc simplesigning) sp_garbage
       = ('''', [], Some ''unexpected end of JSON input'')
   \<and> digestAndClaims (example_extern [] (desc_abc ''text/plain'')) (desc_abc ''text/plain'') sp_abc
       = ('''', [], Some ''unexpected mediaType for sha256:abc: text/plain'')
   \<and> verifyClaims_loop (example_extern [] (desc_abc simplesigning)) (desc_abc simplesigning) []
        ([sp_abc] @ sp_garbage # [sp_abc]) ([], [])
       = ([''unexpected end of JSON input'', ''invalid or missing digest in claim: ''],
          [sp_abc, sp_abc])"
proof -
  let ?E = "\<lambda>mt. example_extern [] (desc_abc mt)"
  have m: "MediaType (desc_abc mt) = mt" for mt by (simp add: desc_abc_def)
  have 1: "digestAndClaims (?E OCIManifestSchema1) (desc_abc OCIManifestSchema1)
      \<lparr>Base64Signature = ''c2ln'', Payload = ''{abc''\<rparr> = (''sha256:abc'', [], None)"
    using digestAndClaims_formats[of "desc_abc OCIManifestSchema1" "?E OCIManifestSchema1"
        "\<lparr>Base64Signature = ''c2ln'', Payload = ''{abc''\<rparr>"]
    by (simp add: m example_extern_def Hash_String_def)
  have 2: "digestAndClaims (?E simplesigning) (desc_abc simplesigning) sp_abc
       = (''sha256:abc'', [(''env'', ''prod'')], None)"
    using digestAndClaims_formats[of "desc_abc simplesigning" "?E simplesigning" sp_abc]
    by (simp add: m example_extern_def simplesigning_def sp_abc_def)
  have 3: "digestAndClaims (?E simplesigning) (desc_abc simplesigning) sp_garbage
       = ('''', [], Some ''unexpected end of JSON input'')"
    using digestAndClaims_formats[of "desc_abc simplesigning" "?E simplesigning" sp_garbage]
    by (simp add: m example_extern_def simplesigning_def sp_garbage_def)
  have 4: "digestAndClaims (?E ''text/plain'') (desc_abc ''text/plain'') sp_abc
       = ('''', [], Some ''unexpected mediaType for sha256:abc: text/plain'')"
    using digestAndClaims_formats[of "desc_abc ''text/plain''" "?E ''text/plain''" sp_abc]
    by (simp add: m OCIManifestSchema1_def) (simp add: desc_abc_def Hash_String_def)
  have l: "verifyClaims_loop (?E simplesigning) (desc_abc simplesigning) [] [sp_abc] ([], [])
      = ([], [sp_abc])"
    by (simp add: example_defs model_defs simplesigning_def)
  have 5: "verifyClaims_loop (?E simplesigning) (desc_abc simplesigning) []
        ([sp_abc] @ sp_garbage # [sp_abc]) ([], [])
       = ([''unexpected end of JSON input'', ''invalid or missing digest in claim: ''],
          [sp_abc, sp_abc])"
    using digestAndClaims_formats[of "desc_abc simplesigning" "?E simplesigning" sp_garbage
        "[]" "[sp_abc]" "[sp_abc]"] 3 l
    by simp
  from 1 2 3 4 5 show ?thesis by simp
qed

lemma verifyClaims_step_cong:
  "digestAndClaims E' desc sp = digestAndClaims E desc sp \<Longrightarrow>
   verifyClaims_step E' desc annotations sp st = verifyClaims_step E desc annotations sp st"
  by (simp add: verifyClaims_step_def)

lemma verifyClaims_loop_cong:
  "\<forall>sp\<in>set survivors. digestAndClaims E' desc sp = digestAndClaims E desc sp \<Longrightarrow>
   verifyClaims_loop E' desc annotations survivors st =
   verifyClaims_loop E desc annotations survivors st"
proof (induction survivors arbitrary: st)
  case Nil
  show ?case by simp
next
  case (Cons sp rest)
  from Cons.prems have s: "digestAndClaims E' desc sp = digestAndClaims E desc sp"
    and r: "\<forall>sp\<in>set rest. digestAndClaims E' desc sp = digestAndClaims E desc sp"
    by simp_all
  show ?case
    by (simp only: verifyClaims_loop.simps verifyClaims_step_cong[OF s] Cons.IH[OF r])
qed

lemma verifyClaims_cong:
  assumes "\<forall>sp\<in>set survivors. digestAndClaims E' desc sp = digestAndClaims E desc sp"
  shows "verifyClaims E' desc annotations survivors = verifyClaims E desc annotations survivors"
  unfolding verifyClaims_def verifyClaims_loop_cong[OF assms] ..

lemma digestAndClaims_json_update:
  "f (Payload sp) = json_Unmarshal_Descriptor E (Payload sp) \<Longrightarrow>
   g (Payload sp) = json_Unmarshal_SimpleSigning E (Payload sp) \<Longrightarrow>
   digestAndClaims (E\<lparr>json_Unmarshal_Descriptor := f, json_Unmarshal_SimpleSigning := g\<rparr>) desc sp
     = digestAndClaims E desc sp"
  by (simp add: digestAndClaims_def)

lemma digestAndClaims_unexpected_mediaType:
  "MediaType desc \<noteq> OCIManifestSchema1 \<Longrightarrow>
   MediaType desc \<noteq> ''application/vnd.dev.cosign.simplesigning.v1+json'' \<Longrightarrow>
   digestAndClaims E desc sp = ('''', [],
      Some (''unexpected mediaType for '' @ Hash_String (Digest desc) @ '': '' @ MediaType desc))"
  by (simp add: digestAndClaims_def)

lemma claim_errs_unexpected_mediaType:
  assumes "MediaType desc \<noteq> OCIManifestSchema1"
    and "MediaType desc \<noteq> ''application/vnd.dev.cosign.simplesigning.v1+json''"
  shows "claim_errs E desc annotations sp =
     [''unexpected mediaType for '' @ Hash_String (Digest desc) @ '': '' @ MediaType desc,
      ''invalid or missing digest in claim: '']"
    and "\<not> claim_kept E desc annotations sp"
proof -
  note d = digestAndClaims_unexpected_mediaType[OF assms, of E sp]
  show "claim_errs E desc annotations sp =
     [''unexpected mediaType for '' @ Hash_String (Digest desc) @ '': '' @ MediaType desc,
      ''invalid or missing digest in claim: '']"
    by (rule claim_errs_extraction_failed(1)[OF d])
  show "\<not> claim_kept E desc annotations sp"
    by (rule claim_errs_extraction_failed(2)[OF d])
qed

section \<open>Separation of the phases\<close>

text \<open>
  C6. The payload of a candidate failing phase 1 is never read by phase 2: changing what
  the JSON decoders return on any payload other than those of the candidates that pass
  phase 1 leaves the result of \<open>Verify\<close> unchanged. When the descriptor's media type is not
  a recognized one, the loop of phase 2 does not stop at the first survivor: each survivor
  gets its own two error lines, and the call ends with the aggregated error
  \<open>no matching claims:\<close> that lists them all.
\<close>

theorem Verify_phase_separation:
  assumes "FetchSignatures E ref = Inr (candidates, desc)"
  shows "((\<forall>sp\<in>set candidates. signature_valid E pubKey sp \<longrightarrow>
             f (Payload sp) = json_Unmarshal_Descriptor E (Payload sp) \<and>
             g (Payload sp) = json_Unmarshal_SimpleSigning E (Payload sp)) \<longrightarrow>
          Verify (E\<lparr>json_Unmarshal_Descriptor := f, json_Unmarshal_SimpleSigning := g\<rparr>)
            ref pubKey checkClaims annotations =
          Verify E ref pubKey checkClaims annotations)
    \<and> (MediaType desc \<noteq> OCIManifestSchema1
         \<and> MediaType desc \<noteq> ''application/vnd.dev.cosign.simplesigning.v1+json''
         \<and> filter (signature_valid E pubKey) candidates \<noteq> [] \<longrightarrow>
          Verify E ref pubKey True annotations =
            Inl (''no matching claims:\<newline>'' @
                 strings_Join
                   (concat (map (\<lambda>sp.
                      [''unexpected mediaType for '' @ Hash_String (Digest desc) @ '': '' @
                         MediaType desc,
                       ''invalid or missing digest in claim: ''])
                      (filter (signature_valid E pubKey) candidates)))
                   ''\<newline>  ''))"
proof (intro conjI impI)
  let ?E = "E\<lparr>json_Unmarshal_Descriptor := f, json_Unmarshal_SimpleSigning := g\<rparr>"
  let ?valid = "filter (signature_valid E pubKey) candidates"
  assume agree: "\<forall>sp\<in>set candidates. signature_valid E pubKey sp \<longrightarrow>
             f (Payload sp) = json_Unmarshal_Descriptor E (Payload sp) \<and>
             g (Payload sp) = json_Unmarshal_SimpleSigning E (Payload sp)"
  have fe: "FetchSignatures ?E ref = Inr (candidates, desc)" using assms by simp
  have sv: "signature_valid ?E pubKey = signature_valid E pubKey"
    by (rule ext) (rule signature_valid_json_update)
  have "\<forall>sp\<in>set ?valid. digestAndClaims ?E desc sp = digestAndClaims E desc sp"
  proof
    fix sp assume "sp \<in> set ?valid"
    then have "sp \<in> set candidates" "signature_valid E pubKey sp" by simp_all
    with agree have "f (Payload sp) = json_Unmarshal_Descriptor E (Payload sp)"
      "g (Payload sp) = json_Unmarshal_SimpleSigning E (Payload sp)" by blast+
    then show "digestAndClaims ?E desc sp = digestAndClaims E desc sp"
      by (rule digestAndClaims_json_update)
  qed
  then have vc: "verifyClaims ?E desc annotations ?valid = verifyClaims E desc annotations ?valid"
    by (rule verifyClaims_cong)
  show "Verify ?E ref pubKey checkClaims annotations = Verify E ref pubKey checkClaims annotations"
    by (simp only: Verify_eq[OF fe] Verify_eq[OF assms] sv vc signature_errs_json_update)
next
  let ?valid = "filter (signature_valid E pubKey) candidates"
  assume h: "MediaType desc \<noteq> OCIManifestSchema1
         \<and> MediaType desc \<noteq> ''application/vnd.dev.cosign.simplesigning.v1+json''
         \<and> ?valid \<noteq> []"
  then have m1: "MediaType desc \<noteq> OCIManifestSchema1"
    and m2: "MediaType desc \<noteq> ''application/vnd.dev.cosign.simplesigning.v1+json''"
    and ne: "?valid \<noteq> []"
    by blast+
  have ce: "claim_errs E desc annotations =
        (\<lambda>sp. [''unexpected mediaType for '' @ Hash_String (Digest desc) @ '': '' @ MediaType desc,
               ''invalid or missing digest in claim: ''])"
    by (rule ext) (rule claim_errs_unexpected_mediaType(1)[OF m1 m2])
  have none: "filter (claim_kept E desc annotations) ?valid = []"
    unfolding filter_empty_conv
    by (intro ballI) (rule claim_errs_unexpected_mediaType(2)[OF m1 m2])
  have v: "Verify E ref pubKey True annotations = verifyClaims E desc annotations ?valid"
    using ne by (simp add: Verify_eq[OF assms])
  show "Verify E ref pubKey True annotations =
            Inl (''no matching claims:\<newline>'' @
                 strings_Join
                   (concat (map (\<lambda>sp.
                      [''unexpected mediaType for '' @ Hash_String (Digest desc) @ '': '' @
                         MediaType desc,
                       ''invalid or missing digest in claim: ''])
                      ?valid))
                   ''\<newline>  '')"
    unfolding v verifyClaims_eq none ce by (simp only: refl if_True)
qed

theorem Verify_phase_separation_witness:
  "Verify (example_extern [sp_forged, sp_abc, sp_garbage] (desc_abc simplesigning)
             \<lparr>json_Unmarshal_Descriptor :=
                (\<lambda>b. if b = ''{forged'' then Inl ''not read''
                     else json_Unmarshal_Descriptor (example_extern [] (desc_abc [])) b),
              json_Unmarshal_SimpleSigning :=
                (\<lambda>b. if b = ''{forged'' then Inl ''not read''
                     else json_Unmarshal_SimpleSigning (example_extern [] (desc_abc [])) b)\<rparr>)
       ''img'' ''key'' True [] = Inr [sp_abc]
   \<and> Verify (example_extern [sp_forged, sp_abc, sp_garbage] (desc_abc ''text/plain''))
       ''img'' ''key'' True [] =
     Inl ''no matching claims:\<newline>unexpected mediaType for sha256:abc: text/plain\<newline>  invalid or missing digest in claim: \<newline>  unexpected mediaType for sha256:abc: text/plain\<newline>  invalid or missing digest in claim: ''"
proof -
  let ?c = "[sp_forged, sp_abc, sp_garbage]"
  let ?E = "\<lambda>mt. example_extern ?c (desc_abc mt)"
  let ?f = "\<lambda>b. if b = ''{forged'' then Inl ''not read''
                     else json_Unmarshal_Descriptor (example_extern [] (desc_abc [])) b"
  let ?g = "\<lambda>b. if b = ''{forged'' then Inl ''not read''
                     else json_Unmarshal_SimpleSigning (example_extern [] (desc_abc [])) b"
  have fs: "FetchSignatures (?E mt) ''img'' = Inr (?c, desc_abc mt)" for mt
    by (simp add: example_extern_def)
  have v: "filter (signature_valid (?E mt) ''key'') ?c = [sp_abc, sp_garbage]" for mt
    by (simp add: example_extern_def sp_forged_def sp_abc_def sp_garbage_def
          signature_valid_def VerifySignature_def)
  have r: "Verify (?E simplesigning) ''img'' ''key'' True [] = Inr [sp_abc]"
    by (simp add: example_defs sp_forged_def model_defs simplesigning_def)
  have m: "MediaType (desc_abc ''text/plain'') \<noteq> OCIManifestSchema1
         \<and> MediaType (desc_abc ''text/plain'') \<noteq> ''application/vnd.dev.cosign.simplesigning.v1+json''
         \<and> filter (signature_valid (?E ''text/plain'') ''key'') ?c \<noteq> []"
    unfolding v by (simp add: desc_abc_def OCIManifestSchema1_def)
  have d: "Hash_String (Digest (desc_abc ''text/plain'')) = ''sha256:abc''"
      "MediaType (desc_abc ''text/plain'') = ''text/plain''"
    by (simp_all add: desc_abc_def Hash_String_def)
  note T2 = Verify_phase_separation[OF fs, where pubKey = "''key''" and annotations = "[]"
      and f = ?f and g = ?g and checkClaims = True, THEN conjunct2, THEN mp, OF m]
  have 2: "Verify (?E ''text/plain'') ''img'' ''key'' True [] =
     Inl ''no matching claims:\<newline>unexpected mediaType for sha256:abc: text/plain\<newline>  invalid or missing digest in claim: \<newline>  unexpected mediaType for sha256:abc: text/plain\<newline>  invalid or missing digest in claim: ''"
    unfolding T2 v d by simp
  have a: "\<forall>sp\<in>set ?c. signature_valid (?E simplesigning) ''key'' sp \<longrightarrow>
      ?f (Payload sp) = json_Unmarshal_Descriptor (?E simplesigning) (Payload sp) \<and>
      ?g (Payload sp) = json_Unmarshal_SimpleSigning (?E simplesigning) (Payload sp)"
    by (simp add: example_extern_def sp_forged_def sp_abc_def sp_garbage_def
          signature_valid_def VerifySignature_def)
  note T1 = Verify_phase_separation[OF fs, where pubKey = "''key''" and annotations = "[]"
      and f = ?f and g = ?g and checkClaims = True, THEN conjunct1, THEN mp, OF a]
  from T1 r 2 show ?thesis by (simp only: simp_thms)
qed

lemma concat_map_singleton: "concat (map (\<lambda>x. [h x]) xs) = map h xs"
  by (induction xs) simp_all

lemma verifyClaims_all_digest_mismatch:
  assumes "\<forall>sp\<in>set survivors. snd (snd (digestAndClaims E desc sp)) = None \<and>
             fst (digestAndClaims E desc sp) \<noteq> Hash_String (Digest desc)"
  shows "verifyClaims E desc annotations survivors =
          Inl (''no matching claims:\<newline>'' @
               strings_Join
                 (map (\<lambda>sp. ''invalid or missing digest in claim: '' @
                             fst (digestAndClaims E desc sp)) survivors)
                 ''\<newline>  '')"
proof -
  have each: "claim_errs E desc annotations sp =
        [''invalid or missing digest in claim: '' @ fst (digestAndClaims E desc sp)]
      \<and> \<not> claim_kept E desc annotations sp"
    if "sp \<in> set survivors" for sp
  proof -
    obtain d a err where f: "digestAndClaims E desc sp = (d, a, err)"
      by (cases "digestAndClaims E desc sp")
    from that assms f have n: "err = None" and ne: "d \<noteq> Hash_String (Digest desc)"
      by auto
    from f n have f': "digestAndClaims E desc sp = (d, a, None)" by simp
    have "claim_errs E desc annotations sp = [''invalid or missing digest in claim: '' @ d]"
      by (rule claim_errs_digest_mismatch[OF f' ne])
    moreover have "\<not> claim_kept E desc annotations sp"
      using ne by (simp add: claim_kept_None[OF f'])
    ultimately show ?thesis using f by simp
  qed
  have none: "filter (claim_kept E desc annotations) survivors = []"
    unfolding filter_empty_conv using each by blast
  have "map (claim_errs E desc annotations) survivors =
      map (\<lambda>sp. [''invalid or missing digest in claim: '' @ fst (digestAndClaims E desc sp)])
        survivors"
    by (rule map_cong[OF refl]) (simp only: each)
  then have errs: "concat (map (claim_errs E desc annotations) survivors) =
      map (\<lambda>sp. ''invalid or missing digest in claim: '' @ fst (digestAndClaims E desc sp))
        survivors"
    by (simp only: concat_map_singleton)
  show ?thesis
    unfolding verifyClaims_eq none errs by (simp only: refl if_True)
qed

section \<open>Digest comparison\<close>

text \<open>
  C8. After a successful extraction the loop compares the extracted digest with the text
  of the descriptor's digest by equality, on the strings as they are: the item is kept
  only when the two are equal (and the annotations match), otherwise it is dropped with
  the message \<open>invalid or missing digest in claim: \<close> followed by the digest the claim
  asserts. When every survivor asserts another digest, \<open>verifyClaims\<close>, and so \<open>Verify\<close>,
  fails with \<open>no matching claims:\<close> followed by these messages.
\<close>

theorem verifyClaims_digest_equality:
  "(digestAndClaims E desc sp = (d, a, None) \<longrightarrow>
      verifyClaims_step E desc annotations sp (errs, kept) =
        (if d \<noteq> Hash_String (Digest desc)
         then (errs @ [''invalid or missing digest in claim: '' @ d], kept)
         else if \<not> correctAnnotations annotations a
         then (errs @ [''invalid or missing annotation in claim: '' @ fmt_map a], kept)
         else (errs, kept @ [sp])))
   \<and> ((\<forall>sp\<in>set survivors. snd (snd (digestAndClaims E desc sp)) = None \<and>
          fst (digestAndClaims E desc sp) \<noteq> Hash_String (Digest desc)) \<longrightarrow>
        verifyClaims E desc annotations survivors =
          Inl (''no matching claims:\<newline>'' @
               strings_Join
                 (map (\<lambda>sp. ''invalid or missing digest in claim: '' @
                             fst (digestAndClaims E desc sp)) survivors)
                 ''\<newline>  ''))
   \<and> (FetchSignatures E ref = Inr (candidates, desc)
        \<and> filter (signature_valid E pubKey) candidates \<noteq> []
        \<and> (\<forall>sp\<in>set (filter (signature_valid E pubKey) candidates).
              snd (snd (digestAndClaims E desc sp)) = None \<and>
              fst (digestAndClaims E desc sp) \<noteq> Hash_String (Digest desc)) \<longrightarrow>
        Verify E ref pubKey True annotations =
          Inl (''no matching claims:\<newline>'' @
               strings_Join
                 (map (\<lambda>sp. ''invalid or missing digest in claim: '' @
                             fst (digestAndClaims E desc sp))
                    (filter (signature_valid E pubKey) candidates))
                 ''\<newline>  ''))"
proof (intro conjI impI)
  assume "digestAndClaims E desc sp = (d, a, None)"
  then show "verifyClaims_step E desc annotations sp (errs, kept) =
        (if d \<noteq> Hash_String (Digest desc)
         then (errs @ [''invalid or missing digest in claim: '' @ d], kept)
         else if \<not> correctAnnotations annotations a
         then (errs @ [''invalid or missing annotation in claim: '' @ fmt_map a], kept)
         else (errs, kept @ [sp]))"
    by (simp add: verifyClaims_step_def)
next
  assume "\<forall>sp\<in>set survivors. snd (snd (digestAndClaims E desc sp)) = None \<and>
          fst (digestAndClaims E desc sp) \<noteq> Hash_String (Digest desc)"
  then show "verifyClaims E desc annotations survivors =
          Inl (''no matching claims:\<newline>'' @
               strings_Join
                 (map (\<lambda>sp. ''invalid or missing digest in claim: '' @
                             fst (digestAndClaims E desc sp)) survivors)
                 ''\<newline>  '')"
    by (rule verifyClaims_all_digest_mismatch)
next
  let ?valid = "filter (signature_valid E pubKey) candidates"
  assume h: "FetchSignatures E ref = Inr (candidates, desc)
        \<and> ?valid \<noteq> []
        \<and> (\<forall>sp\<in>set ?valid.
              snd (snd (digestAndClaims E desc sp)) = None \<and>
              fst (digestAndClaims E desc sp) \<noteq> Hash_String (Digest desc))"
  then have f: "FetchSignatures E ref = Inr (candidates, desc)" and ne: "?valid \<noteq> []"
    and mm: "\<forall>sp\<in>set ?valid.
              snd (snd (digestAndClaims E desc sp)) = None \<and>
              fst (digestAndClaims E desc sp) \<noteq> Hash_String (Digest desc)"
    by blast+
  have v: "Verify E ref pubKey True annotations = verifyClaims E desc annotations ?valid"
    using ne by (simp add: Verify_eq[OF f])
  show "Verify E ref pubKey True annotations =
          Inl (''no matching claims:\<newline>'' @
               strings_Join
                 (map (\<lambda>sp. ''invalid or missing digest in claim: '' @
                             fst (digestAndClaims E desc sp)) ?valid)
                 ''\<newline>  '')"
    unfolding v by (rule verifyClaims_all_digest_mismatch[OF mm])
qed

theorem verifyClaims_digest_equality_witness:
  "Verify (example_extern [sp_def, sp_badsig] (desc_abc simplesigning)) ''img'' ''key'' True [] =
     Inl ''no matching claims:\<newline>invalid or missing digest in claim: sha256:def''
   \<and> verifyClaims_step (example_extern [] (desc_abc simplesigning)) (desc_abc simplesigning) []
        \<lparr>Base64Signature = ''c2ln'', Payload = ''{SHA256:abc''\<rparr> ([], []) =
      ([''invalid or missing digest in claim: SHA256:abc''], [])"
proof -
  let ?c = "[sp_def, sp_badsig]"
  let ?E = "example_extern ?c (desc_abc simplesigning)"
  let ?F = "example_extern [] (desc_abc simplesigning)"
  let ?sp = "\<lparr>Base64Signature = ''c2ln'', Payload = ''{SHA256:abc''\<rparr>"
  have v: "filter (signature_valid ?E ''key'') ?c = [sp_def]"
    by (simp add: example_extern_def sp_def_def sp_badsig_def signature_valid_def
          VerifySignature_def)
  have dd: "digestAndClaims ?E (desc_abc simplesigning) sp_def =
      (''sha256:def'', [(''env'', ''prod'')], None)"
    by (simp add: digestAndClaims_def example_extern_def sp_def_def desc_abc_def
          simplesigning_def OCIManifestSchema1_def)
  have h: "FetchSignatures ?E ''img'' = Inr (?c, desc_abc simplesigning)
        \<and> filter (signature_valid ?E ''key'') ?c \<noteq> []
        \<and> (\<forall>sp\<in>set (filter (signature_valid ?E ''key'') ?c).
              snd (snd (digestAndClaims ?E (desc_abc simplesigning) sp)) = None \<and>
              fst (digestAndClaims ?E (desc_abc simplesigning) sp) \<noteq>
                Hash_String (Digest (desc_abc simplesigning)))"
  proof (intro conjI ballI)
    show "FetchSignatures ?E ''img'' = Inr (?c, desc_abc simplesigning)"
      by (simp add: example_extern_def)
    show "filter (signature_valid ?E ''key'') ?c \<noteq> []"
      unfolding v by simp
    fix sp assume "sp \<in> set (filter (signature_valid ?E ''key'') ?c)"
    then have sp: "sp = sp_def" unfolding v by simp
    show "snd (snd (digestAndClaims ?E (desc_abc simplesigning) sp)) = None"
      unfolding sp dd by simp
    show "fst (digestAndClaims ?E (desc_abc simplesigning) sp) \<noteq>
                Hash_String (Digest (desc_abc simplesigning))"
      unfolding sp dd by (simp add: desc_abc_def Hash_String_def)
  qed
  have d2: "digestAndClaims ?F (desc_abc simplesigning) ?sp =
      (''SHA256:abc'', [(''env'', ''prod'')], None)"
    by (simp add: digestAndClaims_def example_extern_def desc_abc_def
          simplesigning_def OCIManifestSchema1_def)
  note T = verifyClaims_digest_equality[where E = ?E and desc = "desc_abc simplesigning"
      and ref = "''img''" and pubKey = "''key''" and candidates = ?c and annotations = "[]"]
  note T' = verifyClaims_digest_equality[where E = ?F and desc = "desc_abc simplesigning"
      and sp = ?sp and annotations = "[]" and errs = "[]" and kept = "[]",
      THEN conjunct1, THEN mp, OF d2]
  have 1: "Verify ?E ''img'' ''key'' True [] =
     Inl ''no matching claims:\<newline>invalid or missing digest in claim: sha256:def''"
    unfolding T[THEN conjunct2, THEN conjunct2, THEN mp, OF h] v by (simp add: dd)
  have 2: "verifyClaims_step ?F (desc_abc simplesigning) [] ?sp ([], []) =
      ([''invalid or missing digest in claim: SHA256:abc''], [])"
    using T' by (simp add: desc_abc_def Hash_String_def)
  from 1 2 show ?thesis by (simp only: simp_thms)
qed

end
